theory Spec2Isabelle
  imports Main "HOL-Library.Word"
begin

unbundle bit_operations_syntax

section \<open>Go values\<close>

text \<open>
  A Go \<^verbatim>\<open>[]T\<close> is either \<^verbatim>\<open>nil\<close> or a sequence of elements; the program tests
  \<^verbatim>\<open>== nil\<close> on byte slices, so the model keeps the two apart: \<open>None\<close> is the nil slice,
  \<open>Some []\<close> the empty one. Capacity and sharing of backing arrays are left out: the
  functions modelled here never write through a shared element. A Go \<^verbatim>\<open>int\<close> is a 64-bit
  two's complement integer, a Go \<^verbatim>\<open>string\<close> a sequence of bytes written as characters,
  a \<^verbatim>\<open>*big.Int\<close> that is never negative a natural number.
\<close>

type_synonym byte = "8 word"
type_synonym 'a slice = "'a list option"
type_synonym go_int = "64 word"

definition elems :: "'a slice \<Rightarrow> 'a list" where
  "elems s = (case s of None \<Rightarrow> [] | Some xs \<Rightarrow> xs)"

definition len :: "'a slice \<Rightarrow> nat" where
  "len s = length (elems s)"

text \<open>\<^verbatim>\<open>append(s, x)\<close>: the result is never nil.\<close>

definition append1 :: "'a slice \<Rightarrow> 'a \<Rightarrow> 'a slice" where
  "append1 s x = Some (elems s @ [x])"

text \<open>\<^verbatim>\<open>append(s, t...)\<close>: appending nothing to \<^verbatim>\<open>nil\<close> leaves \<^verbatim>\<open>nil\<close>.\<close>

definition append_slice :: "'a slice \<Rightarrow> 'a list \<Rightarrow> 'a slice" where
  "append_slice s t = (if s = None \<and> t = [] then None else Some (elems s @ t))"

text \<open>The panics and fatal errors of the program.\<close>

datatype error =
    IndexOutOfRange
  | SliceBoundsOutOfRange
  | NilPointerDereference
  | Base58DecodeError
  | HexDecodeError
  | GobDecodeError
  | RandError
  | EcdsaSignError
  | PreviousTransactionNotCorrect
  | NotEnoughFunds
  | TransactionNotFound

text \<open>\<^verbatim>\<open>s[i]\<close> with a Go \<^verbatim>\<open>int\<close> index: a panic outside \<open>0 \<le> i < len(s)\<close>.\<close>

definition index_int :: "'a slice \<Rightarrow> go_int \<Rightarrow> error + 'a" where
  "index_int s i =
     (if 0 \<le> sint i \<and> nat (sint i) < len s then Inr (elems s ! nat (sint i))
      else Inl IndexOutOfRange)"

text \<open>\<^verbatim>\<open>s[i] = f(s[i])\<close> for a loop index \<open>i\<close>: a panic outside the slice.\<close>

definition modify_at :: "'a slice \<Rightarrow> nat \<Rightarrow> ('a \<Rightarrow> 'a) \<Rightarrow> error + 'a slice" where
  "modify_at s i f =
     (if i < len s then Inr (Some ((elems s)[i := f (elems s ! i)]))
      else Inl IndexOutOfRange)"

definition bytes_of_string :: "string \<Rightarrow> byte list" where
  "bytes_of_string s = map of_char s"

definition string_of_bytes :: "byte list \<Rightarrow> string" where
  "string_of_bytes bs = map (\<lambda>b. char_of (unat b)) bs"

subsection \<open>math/big: Bytes and SetBytes\<close>

text \<open>\<^verbatim>\<open>x.Bytes()\<close>: the big-endian bytes of \<open>x\<close> with no leading zero byte; none at all
  for 0.\<close>

function Bytes :: "nat \<Rightarrow> byte list" where
  "Bytes n = (if n = 0 then [] else Bytes (n div 256) @ [of_nat (n mod 256)])"
  by pat_completeness auto
termination
  by (relation "measure id") auto

declare Bytes.simps [simp del]

definition SetBytes :: "byte list \<Rightarrow> nat" where
  "SetBytes bs = foldl (\<lambda>a b. a * 256 + unat b) 0 bs"

subsection \<open>fmt and encoding/hex\<close>

definition hexdigit :: "nat \<Rightarrow> char" where
  "hexdigit d = ''0123456789abcdef'' ! (d mod 16)"

text \<open>\<^verbatim>\<open>hex.EncodeToString(b)\<close>, which is also \<^verbatim>\<open>fmt.Sprintf("%x", b)\<close> for a byte slice
  or a string \<open>b\<close>: two lowercase digits for each byte.\<close>

definition EncodeToString :: "byte list \<Rightarrow> string" where
  "EncodeToString bs = concat (map (\<lambda>b. [hexdigit (unat b div 16), hexdigit (unat b mod 16)]) bs)"

function decimal :: "nat \<Rightarrow> string" where
  "decimal n = (if n < 10 then [hexdigit n] else decimal (n div 10) @ [hexdigit (n mod 10)])"
  by pat_completeness auto
termination
  by (relation "measure id") auto

declare decimal.simps [simp del]

text \<open>\<^verbatim>\<open>fmt.Sprintf("%d", i)\<close> for a Go \<^verbatim>\<open>int\<close>.\<close>

definition Sprintf_d :: "go_int \<Rightarrow> string" where
  "Sprintf_d i = (if sint i < 0 then CHR ''-'' # decimal (nat (- sint i)) else decimal (nat (sint i)))"

text \<open>\<^verbatim>\<open>strings.Join(lines, "\n")\<close>.\<close>

fun Join_newline :: "string list \<Rightarrow> string" where
  "Join_newline [] = []"
| "Join_newline [l] = l"
| "Join_newline (l # ls) = l @ CHR 0x0A # Join_newline ls"

section \<open>Transactions\<close>

record TxInput =
  ID :: "byte slice"
  Out :: go_int
  Signature :: "byte slice"
  PubKey :: "byte slice"

record TxOutput =
  Value :: go_int
  PubKeyHash :: "byte slice"

record Transaction =
  ID :: "byte slice"
  Inputs :: "TxInput slice"
  Outputs :: "TxOutput slice"

text \<open>The zero value of \<^verbatim>\<open>Transaction\<close>, which a map lookup returns for a missing key.\<close>

definition zero_Transaction :: Transaction where
  "zero_Transaction = \<lparr>ID = None, Inputs = None, Outputs = None\<rparr>"

type_synonym prev_txs = "string \<rightharpoonup> Transaction"

definition lookup_tx :: "prev_txs \<Rightarrow> string \<Rightarrow> Transaction" where
  "lookup_tx prevTXs k = (case prevTXs k of None \<Rightarrow> zero_Transaction | Some t \<Rightarrow> t)"

subsection \<open>String\<close>

definition input_lines :: "nat \<Rightarrow> TxInput \<Rightarrow> string list" where
  "input_lines i input =
     [ ''     Input '' @ decimal i @ '':'',
       ''       TXID:      '' @ EncodeToString (elems (TxInput.ID input)),
       ''       Out:       '' @ Sprintf_d (Out input),
       ''       Signature: '' @ EncodeToString (elems (Signature input)),
       ''       PubKey:    '' @ EncodeToString (elems (PubKey input)) ]"

definition output_lines :: "nat \<Rightarrow> TxOutput \<Rightarrow> string list" where
  "output_lines i output =
     [ ''     Output '' @ decimal i @ '':'',
       ''       Value:  '' @ Sprintf_d (Value output),
       ''       Script: '' @ EncodeToString (elems (PubKeyHash output)) ]"

definition String :: "Transaction \<Rightarrow> string" where
  "String tx =
     Join_newline
       ((''--- Transaction '' @ EncodeToString (elems (ID tx)) @ '':'')
        # concat (map (\<lambda>(i, input). input_lines i input) (enumerate 0 (elems (Inputs tx))))
        @ concat (map (\<lambda>(i, output). output_lines i output) (enumerate 0 (elems (Outputs tx)))))"

text \<open>
  \<^verbatim>\<open>fmt.Sprintf("%x\n", txCopy)\<close> for a \<^verbatim>\<open>Transaction\<close> value. \<^verbatim>\<open>Transaction\<close> has the
  method \<^verbatim>\<open>String() string\<close> on a value receiver, so it is a \<^verbatim>\<open>fmt.Stringer\<close>; for the
  verb \<^verbatim>\<open>%x\<close> package fmt calls \<^verbatim>\<open>String()\<close> on a Stringer operand and formats the
  returned string with the verb, that is in lowercase hexadecimal.
\<close>

definition Sprintf_x_newline :: "Transaction \<Rightarrow> string" where
  "Sprintf_x_newline tx = EncodeToString (bytes_of_string (String tx)) @ [CHR 0x0A]"

subsection \<open>Serialize: the gob stream of a transaction\<close>

text \<open>
  \<^verbatim>\<open>Serialize\<close> writes the transaction with a fresh \<^verbatim>\<open>gob.Encoder\<close>. Package encoding/gob
  is outside the program; what follows is its wire format for the three struct types of
  this package, as the package documentation defines it. A fresh encoder first sends one
  message for every type it has not described yet (the struct, then for each field in order
  the slice type and its element type), then the message with the value. Every message is
  its byte count followed by its bytes.

  The type ids that gob gives to user types count up from 65 in the order in which the
  process first meets each type, in any encoder or decoder, so they depend on what the
  process did before; they are a parameter. Memory and the encoder's limit of \<open>2 ^ 33\<close>
  bytes for one message are not modelled.
\<close>

record gob_ids =
  id_Transaction :: go_int
  id_TxInput :: go_int
  id_TxInputs :: go_int
  id_TxOutput :: go_int
  id_TxOutputs :: go_int

text \<open>The ids in a process whose first use of gob is to encode a \<^verbatim>\<open>Transaction\<close>.\<close>

definition fresh_ids :: gob_ids where
  "fresh_ids = \<lparr>id_Transaction = 65, id_TxInput = 66, id_TxInputs = 67,
                 id_TxOutput = 68, id_TxOutputs = 69\<rparr>"

text \<open>An unsigned integer: one byte below 128, else the negated byte count and the
  big-endian bytes without leading zeros.\<close>

definition encodeUint :: "64 word \<Rightarrow> byte list" where
  "encodeUint x =
     (if x \<le> 0x7F then [ucast x]
      else of_nat (256 - length (Bytes (unat x))) # Bytes (unat x))"

text \<open>A signed integer: shifted left by one, complemented when negative, with the low bit
  saying so.\<close>

definition encodeInt :: "go_int \<Rightarrow> byte list" where
  "encodeInt i = encodeUint (if i <s 0 then push_bit 1 (NOT i) OR 1 else push_bit 1 i)"

text \<open>The fields of a struct in order, each as the encoder's operation for its type left
  it: \<open>None\<close> where the field was not sent. A field that is sent is preceded by the
  distance from the field sent before it (from -1 at the start); a zero ends the struct.\<close>

fun encodeStruct :: "int \<Rightarrow> (int \<times> byte list option) list \<Rightarrow> byte list" where
  "encodeStruct fieldnum [] = encodeUint 0"
| "encodeStruct fieldnum ((field, None) # rest) = encodeStruct fieldnum rest"
| "encodeStruct fieldnum ((field, Some v) # rest) =
     encodeUint (of_int (field - fieldnum)) @ v @ encodeStruct field rest"

text \<open>The operations for the field types: a byte slice, a string, an int and a slice of
  structs are not sent when empty or zero; a struct is always sent.\<close>

definition encUint8Array :: "byte slice \<Rightarrow> byte list option" where
  "encUint8Array b =
     (if len b > 0 then Some (encodeUint (of_nat (len b)) @ elems b) else None)"

definition encString :: "string \<Rightarrow> byte list option" where
  "encString s =
     (if length s > 0 then Some (encodeUint (of_nat (length s)) @ bytes_of_string s) else None)"

definition encInt :: "go_int \<Rightarrow> byte list option" where
  "encInt i = (if i \<noteq> 0 then Some (encodeInt i) else None)"

definition encSlice :: "('a \<Rightarrow> byte list) \<Rightarrow> 'a slice \<Rightarrow> byte list option" where
  "encSlice encElem s =
     (if len s = 0 then None
      else Some (encodeUint (of_nat (len s)) @ concat (map encElem (elems s))))"

definition encode_TxInput :: "TxInput \<Rightarrow> byte list" where
  "encode_TxInput input =
     encodeStruct (- 1)
       [(0, encUint8Array (TxInput.ID input)), (1, encInt (Out input)),
        (2, encUint8Array (Signature input)), (3, encUint8Array (PubKey input))]"

definition encode_TxOutput :: "TxOutput \<Rightarrow> byte list" where
  "encode_TxOutput out =
     encodeStruct (- 1) [(0, encInt (Value out)), (1, encUint8Array (PubKeyHash out))]"

definition encode_Transaction :: "Transaction \<Rightarrow> byte list" where
  "encode_Transaction tx =
     encodeStruct (- 1)
       [(0, encUint8Array (ID tx)), (1, encSlice encode_TxInput (Inputs tx)),
        (2, encSlice encode_TxOutput (Outputs tx))]"

text \<open>Type descriptions are values of gob's own struct \<^verbatim>\<open>wireType\<close>, whose field 1 is a
  \<^verbatim>\<open>sliceType\<close> (\<^verbatim>\<open>CommonType\<close>, element id) and whose field 2 is a \<^verbatim>\<open>structType\<close>
  (\<^verbatim>\<open>CommonType\<close>, fields); a \<^verbatim>\<open>CommonType\<close> and a \<^verbatim>\<open>fieldType\<close> are a name and an id.
  The predefined ids are 2 for \<^verbatim>\<open>int\<close> and 5 for \<^verbatim>\<open>[]byte\<close>.\<close>

definition encode_named :: "string \<times> go_int \<Rightarrow> byte list" where
  "encode_named = (\<lambda>(name, tid). encodeStruct (- 1) [(0, encString name), (1, encInt tid)])"

definition wire_struct :: "string \<Rightarrow> go_int \<Rightarrow> (string \<times> go_int) list \<Rightarrow> byte list" where
  "wire_struct name tid fs =
     encodeStruct (- 1)
       [(2, Some (encodeStruct (- 1)
                    [(0, Some (encode_named (name, tid))),
                     (1, encSlice encode_named (Some fs))]))]"

definition wire_slice :: "string \<Rightarrow> go_int \<Rightarrow> go_int \<Rightarrow> byte list" where
  "wire_slice name tid elem =
     encodeStruct (- 1)
       [(1, Some (encodeStruct (- 1) [(0, Some (encode_named (name, tid))), (1, encInt elem)]))]"

definition message :: "byte list \<Rightarrow> byte list" where
  "message payload = encodeUint (of_nat (length payload)) @ payload"

definition type_messages :: "gob_ids \<Rightarrow> byte list" where
  "type_messages g =
     message (encodeInt (- id_Transaction g)
        @ wire_struct ''Transaction'' (id_Transaction g)
            [(''ID'', 5), (''Inputs'', id_TxInputs g), (''Outputs'', id_TxOutputs g)])
     @ message (encodeInt (- id_TxInputs g)
        @ wire_slice ''[]blockchain.TxInput'' (id_TxInputs g) (id_TxInput g))
     @ message (encodeInt (- id_TxInput g)
        @ wire_struct ''TxInput'' (id_TxInput g)
            [(''ID'', 5), (''Out'', 2), (''Signature'', 5), (''PubKey'', 5)])
     @ message (encodeInt (- id_TxOutputs g)
        @ wire_slice ''[]blockchain.TxOutput'' (id_TxOutputs g) (id_TxOutput g))
     @ message (encodeInt (- id_TxOutput g)
        @ wire_struct ''TxOutput'' (id_TxOutput g) [(''Value'', 2), (''PubKeyHash'', 5)])"

definition Serialize :: "gob_ids \<Rightarrow> Transaction \<Rightarrow> byte list" where
  "Serialize g tx =
     type_messages g @ message (encodeInt (id_Transaction g) @ encode_Transaction tx)"

subsection \<open>IsCoinbase and TrimmedCopy\<close>

definition IsCoinbase :: "Transaction \<Rightarrow> bool" where
  "IsCoinbase tx \<longleftrightarrow>
     len (Inputs tx) = 1 \<and> len (TxInput.ID (elems (Inputs tx) ! 0)) = 0
       \<and> Out (elems (Inputs tx) ! 0) = - 1"

definition TrimmedCopy :: "Transaction \<Rightarrow> Transaction" where
  "TrimmedCopy tx =
     \<lparr>ID = ID tx,
      Inputs = foldl (\<lambda>inputs input.
                 append1 inputs \<lparr>TxInput.ID = TxInput.ID input, Out = Out input,
                                 Signature = None, PubKey = None\<rparr>) None (elems (Inputs tx)),
      Outputs = foldl (\<lambda>outputs out.
                 append1 outputs \<lparr>Value = Value out, PubKeyHash = PubKeyHash out\<rparr>)
                 None (elems (Outputs tx))\<rparr>"

subsection \<open>Sign and Verify\<close>

text \<open>
  Package crypto/ecdsa is outside the program and enters as two parameters.
  \<open>ecdsa_Sign n priv hash\<close> is the \<open>n\<close>-th call \<^verbatim>\<open>ecdsa.Sign(rand.Reader, &priv, hash)\<close>
  of a run (the call number stands for what \<^verbatim>\<open>rand.Reader\<close> delivers): an error or the
  pair \<open>(r, s)\<close>. \<open>ecdsa_Verify (x, y) hash r s\<close> is \<^verbatim>\<open>ecdsa.Verify\<close> on P-256 with the
  public key \<open>(x, y)\<close>.
\<close>

type_synonym 'k ecdsa_sign = "nat \<Rightarrow> 'k \<Rightarrow> byte list \<Rightarrow> error + (nat \<times> nat)"
type_synonym ecdsa_verify = "nat \<times> nat \<Rightarrow> byte list \<Rightarrow> nat \<Rightarrow> nat \<Rightarrow> bool"

definition index_nat :: "'a slice \<Rightarrow> nat \<Rightarrow> error + 'a" where
  "index_nat s i = (if i < len s then Inr (elems s ! i) else Inl IndexOutOfRange)"

text \<open>The first loop of \<^verbatim>\<open>Sign\<close> and of \<^verbatim>\<open>Verify\<close>: some input refers to a transaction
  whose entry in \<^verbatim>\<open>prevTXs\<close> has a nil \<^verbatim>\<open>ID\<close> (as the zero value of a missing key has).\<close>

definition missing_prev :: "prev_txs \<Rightarrow> Transaction \<Rightarrow> bool" where
  "missing_prev prevTXs tx =
     list_ex (\<lambda>input. ID (lookup_tx prevTXs (EncodeToString (elems (TxInput.ID input)))) = None)
       (elems (Inputs tx))"

text \<open>The signing loop, one equation per iteration: \<open>tx\<close> is the transaction being signed
  in place, \<open>txCopy\<close> its trimmed copy, both as the iteration finds them.\<close>

fun sign_inputs ::
  "'k ecdsa_sign \<Rightarrow> 'k \<Rightarrow> prev_txs \<Rightarrow> nat list \<Rightarrow> Transaction \<Rightarrow> Transaction \<Rightarrow> error + Transaction"
where
  "sign_inputs ecdsa_Sign privKey prevTXs [] tx txCopy = Inr tx"
| "sign_inputs ecdsa_Sign privKey prevTXs (inId # rest) tx txCopy =
     (case index_nat (Inputs txCopy) inId of Inl e \<Rightarrow> Inl e | Inr input \<Rightarrow>
     (let prevTX = lookup_tx prevTXs (EncodeToString (elems (TxInput.ID input))) in
     (case modify_at (Inputs txCopy) inId (\<lambda>i. i\<lparr>Signature := None\<rparr>) of Inl e \<Rightarrow> Inl e | Inr ins1 \<Rightarrow>
     (case index_int (Outputs prevTX) (Out input) of Inl e \<Rightarrow> Inl e | Inr out \<Rightarrow>
     (case modify_at ins1 inId (\<lambda>i. i\<lparr>PubKey := PubKeyHash out\<rparr>) of Inl e \<Rightarrow> Inl e | Inr ins2 \<Rightarrow>
     (let dataToSign = Sprintf_x_newline (txCopy\<lparr>Inputs := ins2\<rparr>) in
     (case ecdsa_Sign inId privKey (bytes_of_string dataToSign) of Inl e \<Rightarrow> Inl e | Inr (r, s) \<Rightarrow>
     (let signature = Some (Bytes r @ Bytes s) in
     (case modify_at (Inputs tx) inId (\<lambda>i. i\<lparr>Signature := signature\<rparr>) of Inl e \<Rightarrow> Inl e | Inr ins \<Rightarrow>
     (case modify_at ins2 inId (\<lambda>i. i\<lparr>PubKey := None\<rparr>) of Inl e \<Rightarrow> Inl e | Inr ins3 \<Rightarrow>
        sign_inputs ecdsa_Sign privKey prevTXs rest (tx\<lparr>Inputs := ins\<rparr>)
          (txCopy\<lparr>Inputs := ins3\<rparr>)))))))))))"

definition Sign :: "'k ecdsa_sign \<Rightarrow> 'k \<Rightarrow> prev_txs \<Rightarrow> Transaction \<Rightarrow> error + Transaction" where
  "Sign ecdsa_Sign privKey prevTXs tx =
     (if IsCoinbase tx then Inr tx
      else if missing_prev prevTXs tx then Inl PreviousTransactionNotCorrect
      else let txCopy = TrimmedCopy tx
           in sign_inputs ecdsa_Sign privKey prevTXs [0..<len (Inputs txCopy)] tx txCopy)"

text \<open>The verification loop: \<open>ins\<close> are the inputs of \<open>tx\<close> still to be visited, \<open>inId\<close> the
  index of the first of them.\<close>

fun verify_inputs ::
  "ecdsa_verify \<Rightarrow> prev_txs \<Rightarrow> TxInput list \<Rightarrow> nat \<Rightarrow> Transaction \<Rightarrow> error + bool"
where
  "verify_inputs ecdsa_Verify prevTXs [] inId txCopy = Inr True"
| "verify_inputs ecdsa_Verify prevTXs (input # rest) inId txCopy =
     (let prevTx = lookup_tx prevTXs (EncodeToString (elems (TxInput.ID input))) in
     (case modify_at (Inputs txCopy) inId (\<lambda>i. i\<lparr>Signature := None\<rparr>) of Inl e \<Rightarrow> Inl e | Inr ins1 \<Rightarrow>
     (case index_int (Outputs prevTx) (Out input) of Inl e \<Rightarrow> Inl e | Inr out \<Rightarrow>
     (case modify_at ins1 inId (\<lambda>i. i\<lparr>PubKey := PubKeyHash out\<rparr>) of Inl e \<Rightarrow> Inl e | Inr ins2 \<Rightarrow>
     (let sigLen = len (Signature input);
          r = SetBytes (take (sigLen div 2) (elems (Signature input)));
          s = SetBytes (drop (sigLen div 2) (elems (Signature input)));
          keyLen = len (PubKey input);
          x = SetBytes (take (keyLen div 2) (elems (PubKey input)));
          y = SetBytes (drop (keyLen div 2) (elems (PubKey input)));
          dataToVerify = Sprintf_x_newline (txCopy\<lparr>Inputs := ins2\<rparr>)
      in (if \<not> ecdsa_Verify (x, y) (bytes_of_string dataToVerify) r s then Inr False
          else (case modify_at ins2 inId (\<lambda>i. i\<lparr>PubKey := None\<rparr>) of Inl e \<Rightarrow> Inl e | Inr ins3 \<Rightarrow>
                  verify_inputs ecdsa_Verify prevTXs rest (inId + 1)
                    (txCopy\<lparr>Inputs := ins3\<rparr>))))))))"

definition Verify :: "ecdsa_verify \<Rightarrow> prev_txs \<Rightarrow> Transaction \<Rightarrow> error + bool" where
  "Verify ecdsa_Verify prevTXs tx =
     (if IsCoinbase tx then Inr True
      else if missing_prev prevTXs tx then Inl PreviousTransactionNotCorrect
      else verify_inputs ecdsa_Verify prevTXs (elems (Inputs tx)) 0 (TrimmedCopy tx))"

subsection \<open>What signing and verification are stated about\<close>

text \<open>The input that \<^verbatim>\<open>TrimmedCopy\<close> keeps of an input, and the copies whose inputs all
  have this form.\<close>

definition trim :: "TxInput \<Rightarrow> TxInput" where
  "trim input = \<lparr>TxInput.ID = TxInput.ID input, Out = Out input, Signature = None, PubKey = None\<rparr>"

definition trimmed :: "Transaction \<Rightarrow> bool" where
  "trimmed c \<longleftrightarrow> (\<forall>input \<in> set (elems (Inputs c)). Signature input = None \<and> PubKey input = None)"

text \<open>What \<^verbatim>\<open>Sign\<close> must leave alone in an input.\<close>

definition frame_key :: "TxInput \<Rightarrow> byte slice \<times> go_int \<times> byte slice" where
  "frame_key i = (TxInput.ID i, Out i, PubKey i)"

text \<open>The output that an input refers to: \<^verbatim>\<open>prevTXs[hex(in.ID)].Outputs[in.Out]\<close>.\<close>

definition referenced_output :: "prev_txs \<Rightarrow> TxInput \<Rightarrow> error + TxOutput" where
  "referenced_output prevTXs input =
     index_int (Outputs (lookup_tx prevTXs (EncodeToString (elems (TxInput.ID input))))) (Out input)"

text \<open>The trimmed copy of \<open>tx\<close> in which input \<open>i\<close> carries the public key hash of the
  output \<open>out\<close> as its public key.\<close>

definition copy_for_input :: "Transaction \<Rightarrow> nat \<Rightarrow> TxOutput \<Rightarrow> Transaction" where
  "copy_for_input tx i out =
     (TrimmedCopy tx)\<lparr>Inputs := Some ((elems (Inputs (TrimmedCopy tx)))
        [i := (elems (Inputs (TrimmedCopy tx)) ! i)\<lparr>PubKey := PubKeyHash out\<rparr>])\<rparr>"

text \<open>The bytes of the lowercase hexadecimal form of the text that \<^verbatim>\<open>String\<close> gives for
  that copy, followed by one newline.\<close>

definition signing_preimage :: "Transaction \<Rightarrow> nat \<Rightarrow> TxOutput \<Rightarrow> byte list" where
  "signing_preimage tx i out =
     bytes_of_string (EncodeToString (bytes_of_string (String (copy_for_input tx i out))) @ [CHR 0x0A])"

text \<open>The two numbers that \<^verbatim>\<open>Verify\<close> reads from a signature or a public key: the first
  and the second half of the bytes, big-endian.\<close>

definition halves :: "byte slice \<Rightarrow> nat \<times> nat" where
  "halves b = (SetBytes (take (len b div 2) (elems b)), SetBytes (drop (len b div 2) (elems b)))"

section \<open>Hashes\<close>

text \<open>
  Packages crypto/sha256 and golang.org/x/crypto/ripemd160 are outside the program. A
  digest function enters as a parameter whose result is a word of the digest's width;
  \<open>word_bytes\<close> gives the digest's bytes, first byte first, as \<^verbatim>\<open>hash[:]\<close> does: 32 bytes
  for \<^verbatim>\<open>sha256.Sum256\<close>, 20 bytes for RIPEMD-160.
\<close>

type_synonym sha256 = "byte list \<Rightarrow> 256 word"
type_synonym ripemd160 = "byte list \<Rightarrow> 160 word"

definition word_bytes :: "'a::len word \<Rightarrow> byte list" where
  "word_bytes w = map (\<lambda>i. ucast (drop_bit (8 * i) w)) (rev [0..<LENGTH('a) div 8])"

section \<open>The Merkle tree\<close>

text \<open>The slices of this file are built and read, never compared with \<^verbatim>\<open>nil\<close>; they are
  lists here. A \<^verbatim>\<open>*MerkleNode\<close> is \<open>None\<close> when nil.\<close>

datatype MerkleNode =
  MerkleNode (Left: "MerkleNode option") (Right: "MerkleNode option") (Data: "byte list")

record MerkleTree =
  RootNode :: MerkleNode

definition NewMerkleNode ::
  "sha256 \<Rightarrow> MerkleNode option \<Rightarrow> MerkleNode option \<Rightarrow> byte list \<Rightarrow> error + MerkleNode"
where
  "NewMerkleNode Sum256 left right data =
     (if left = None \<and> right = None
      then Inr (MerkleNode left right (word_bytes (Sum256 data)))
      else (case left of None \<Rightarrow> Inl NilPointerDereference | Some l \<Rightarrow>
           (case right of None \<Rightarrow> Inl NilPointerDereference | Some r \<Rightarrow>
              Inr (MerkleNode left right (word_bytes (Sum256 (Data l @ Data r)))))))"

text \<open>The loop \<^verbatim>\<open>for _, dat := range data\<close>, which makes the leaves.\<close>

fun leaf_nodes :: "sha256 \<Rightarrow> byte list list \<Rightarrow> error + MerkleNode list" where
  "leaf_nodes Sum256 [] = Inr []"
| "leaf_nodes Sum256 (dat # rest) =
     (case NewMerkleNode Sum256 None None dat of Inl e \<Rightarrow> Inl e | Inr node \<Rightarrow>
     (case leaf_nodes Sum256 rest of Inl e \<Rightarrow> Inl e | Inr nodes \<Rightarrow> Inr (node # nodes)))"

text \<open>The inner loop \<^verbatim>\<open>for j := 0; j < len(nodes); j += 2\<close> on the nodes from \<open>j\<close> on:
  \<^verbatim>\<open>nodes[j+1]\<close> is out of range when one node is left.\<close>

fun pair_nodes :: "sha256 \<Rightarrow> MerkleNode list \<Rightarrow> error + MerkleNode list" where
  "pair_nodes Sum256 [] = Inr []"
| "pair_nodes Sum256 [l] = Inl IndexOutOfRange"
| "pair_nodes Sum256 (l # r # rest) =
     (case NewMerkleNode Sum256 (Some l) (Some r) [] of Inl e \<Rightarrow> Inl e | Inr node \<Rightarrow>
     (case pair_nodes Sum256 rest of Inl e \<Rightarrow> Inl e | Inr level \<Rightarrow> Inr (node # level)))"

text \<open>The outer loop \<^verbatim>\<open>for i := 0; i < len(data)/2; i++\<close> with \<open>n\<close> rounds to go.\<close>

fun build_levels :: "sha256 \<Rightarrow> nat \<Rightarrow> MerkleNode list \<Rightarrow> error + MerkleNode list" where
  "build_levels Sum256 0 nodes = Inr nodes"
| "build_levels Sum256 (Suc n) nodes =
     (case pair_nodes Sum256 nodes of Inl e \<Rightarrow> Inl e | Inr level \<Rightarrow> build_levels Sum256 n level)"

definition NewMerkleTree :: "sha256 \<Rightarrow> byte list list \<Rightarrow> error + MerkleTree" where
  "NewMerkleTree Sum256 data0 =
     (let data = (if length data0 mod 2 \<noteq> 0 then data0 @ [data0 ! (length data0 - 1)] else data0) in
      (case leaf_nodes Sum256 data of Inl e \<Rightarrow> Inl e | Inr nodes0 \<Rightarrow>
      (case build_levels Sum256 (length data div 2) nodes0 of Inl e \<Rightarrow> Inl e | Inr nodes \<Rightarrow>
      (case nodes of [] \<Rightarrow> Inl IndexOutOfRange | root # _ \<Rightarrow> Inr \<lparr>RootNode = root\<rparr>))))"

subsection \<open>The rule that the root is stated against\<close>

text \<open>One level up by the rule: neighbours are hashed together, left before right, and a
  trailing node without a neighbour is paired with itself.\<close>

fun level_up :: "sha256 \<Rightarrow> byte list list \<Rightarrow> byte list list" where
  "level_up Sum256 [] = []"
| "level_up Sum256 [l] = [word_bytes (Sum256 (l @ l))]"
| "level_up Sum256 (l # r # rest) = word_bytes (Sum256 (l @ r)) # level_up Sum256 rest"

lemma length_level_up: "length (level_up Sum256 level) = (length level + 1) div 2"
  by (induction Sum256 level rule: level_up.induct) simp_all

text \<open>Levels are built, the input level included, until one node remains.\<close>

function root_of_level :: "sha256 \<Rightarrow> byte list list \<Rightarrow> byte list" where
  "root_of_level Sum256 level =
     (if length (level_up Sum256 level) \<le> 1 then concat (level_up Sum256 level)
      else root_of_level Sum256 (level_up Sum256 level))"
  by pat_completeness auto
termination
  by (relation "measure (\<lambda>(Sum256, level). length level)") (auto simp: length_level_up)

declare root_of_level.simps [simp del]

definition merkle_root :: "sha256 \<Rightarrow> byte list list \<Rightarrow> byte list" where
  "merkle_root Sum256 data = root_of_level Sum256 (map (\<lambda>dat. word_bytes (Sum256 dat)) data)"

section \<open>Properties of signing and verification\<close>

lemma modify_at_Inr:
  "modify_at s i f = Inr s' \<Longrightarrow> i < len s \<and> s' = Some ((elems s)[i := f (elems s ! i)])"
  by (auto simp: modify_at_def split: if_splits)

lemma foldl_append1:
  "foldl (\<lambda>acc x. append1 acc (f x)) s xs = (if xs = [] then s else Some (elems s @ map f xs))"
  by (induction xs arbitrary: s) (auto simp: append1_def elems_def)

lemma TrimmedCopy_Inputs:
  "Inputs (TrimmedCopy tx) =
     (if elems (Inputs tx) = [] then None else Some (map trim (elems (Inputs tx))))"
proof -
  have "(\<lambda>input. \<lparr>TxInput.ID = TxInput.ID input, Out = Out input, Signature = None,
           PubKey = None\<rparr>) = trim"
    by (simp add: fun_eq_iff trim_def)
  then show ?thesis
    by (simp add: TrimmedCopy_def foldl_append1) (simp add: elems_def)
qed

lemma elems_TrimmedCopy_Inputs: "elems (Inputs (TrimmedCopy tx)) = map trim (elems (Inputs tx))"
  by (simp add: TrimmedCopy_Inputs) (simp add: elems_def)

lemma len_TrimmedCopy_Inputs: "len (Inputs (TrimmedCopy tx)) = len (Inputs tx)"
  by (simp add: len_def elems_TrimmedCopy_Inputs)

lemma trimmed_TrimmedCopy: "trimmed (TrimmedCopy tx)"
  by (auto simp: trimmed_def elems_TrimmedCopy_Inputs trim_def)

lemma trimmed_restore:
  assumes "trimmed c" "i < len (Inputs c)"
  shows "modify_at (Inputs c) i (\<lambda>x. x\<lparr>Signature := None\<rparr>) = Inr (Inputs c)"
    and "modify_at (Inputs c) i (\<lambda>x. x\<lparr>PubKey := h\<rparr>)
           = Inr (Some ((elems (Inputs c))[i := (elems (Inputs c) ! i)\<lparr>PubKey := h\<rparr>]))"
    and "modify_at (Some ((elems (Inputs c))[i := (elems (Inputs c) ! i)\<lparr>PubKey := h\<rparr>])) i
           (\<lambda>x. x\<lparr>PubKey := None\<rparr>) = Inr (Inputs c)"
proof -
  obtain cs where cs: "Inputs c = Some cs" using assms(2) by (cases "Inputs c") (auto simp: len_def elems_def)
  with assms have i: "i < length cs" and s: "Signature (cs ! i) = None" and p: "PubKey (cs ! i) = None"
    by (auto simp: trimmed_def len_def elems_def)
  show "modify_at (Inputs c) i (\<lambda>x. x\<lparr>Signature := None\<rparr>) = Inr (Inputs c)"
    using i s by (simp add: modify_at_def cs len_def elems_def list_update_same_conv)
  show "modify_at (Inputs c) i (\<lambda>x. x\<lparr>PubKey := h\<rparr>)
           = Inr (Some ((elems (Inputs c))[i := (elems (Inputs c) ! i)\<lparr>PubKey := h\<rparr>]))"
    using i by (simp add: modify_at_def cs len_def elems_def)
  show "modify_at (Some ((elems (Inputs c))[i := (elems (Inputs c) ! i)\<lparr>PubKey := h\<rparr>])) i
           (\<lambda>x. x\<lparr>PubKey := None\<rparr>) = Inr (Inputs c)"
    using i p by (simp add: modify_at_def cs len_def elems_def list_update_same_conv)
qed

lemma sign_inputs_step:
  assumes "trimmed c" "inId < len (Inputs c)"
  shows "sign_inputs sg K prevTXs (inId # rest) tx c =
     (case referenced_output prevTXs (elems (Inputs c) ! inId) of Inl e \<Rightarrow> Inl e | Inr out \<Rightarrow>
      (case sg inId K (bytes_of_string (Sprintf_x_newline
              (c\<lparr>Inputs := Some ((elems (Inputs c))[inId := (elems (Inputs c) ! inId)\<lparr>PubKey := PubKeyHash out\<rparr>])\<rparr>)))
       of Inl e \<Rightarrow> Inl e | Inr (r, s) \<Rightarrow>
      (case modify_at (Inputs tx) inId (\<lambda>i. i\<lparr>Signature := Some (Bytes r @ Bytes s)\<rparr>) of Inl e \<Rightarrow> Inl e
       | Inr ins \<Rightarrow> sign_inputs sg K prevTXs rest (tx\<lparr>Inputs := ins\<rparr>) c)))"
  using assms
  by (simp add: trimmed_restore index_nat_def referenced_output_def Let_def
           split: sum.splits prod.splits)


lemma referenced_output_trim [simp]: "referenced_output prevTXs (trim x) = referenced_output prevTXs x"
  by (simp add: referenced_output_def trim_def)

lemma sign_inputs_signatures:
  assumes "trimmed c" "\<forall>i\<in>set ids. i < len (Inputs c)" "distinct ids"
    and "sign_inputs sg K prevTXs ids tx c = Inr tx'"
  shows "(\<forall>i\<in>set ids. \<exists>out r s.
            referenced_output prevTXs (elems (Inputs c) ! i) = Inr out
          \<and> sg i K (bytes_of_string (Sprintf_x_newline
               (c\<lparr>Inputs := Some ((elems (Inputs c))[i := (elems (Inputs c) ! i)\<lparr>PubKey := PubKeyHash out\<rparr>])\<rparr>)))
              = Inr (r, s)
          \<and> Signature (elems (Inputs tx') ! i) = Some (Bytes r @ Bytes s))
       \<and> (\<forall>j. j \<notin> set ids \<longrightarrow> elems (Inputs tx') ! j = elems (Inputs tx) ! j)
       \<and> len (Inputs tx') = len (Inputs tx)"
  using assms(2-)
proof (induction ids arbitrary: tx)
  case Nil
  then show ?case by simp
next
  case (Cons inId rest)
  have lt: "inId < len (Inputs c)" using Cons.prems(1) by simp
  from Cons.prems(3) obtain out r s ins where
    out: "referenced_output prevTXs (elems (Inputs c) ! inId) = Inr out"
    and sg: "sg inId K (bytes_of_string (Sprintf_x_newline
               (c\<lparr>Inputs := Some ((elems (Inputs c))[inId := (elems (Inputs c) ! inId)\<lparr>PubKey := PubKeyHash out\<rparr>])\<rparr>)))
              = Inr (r, s)"
    and m: "modify_at (Inputs tx) inId (\<lambda>i. i\<lparr>Signature := Some (Bytes r @ Bytes s)\<rparr>) = Inr ins"
    and rest: "sign_inputs sg K prevTXs rest (tx\<lparr>Inputs := ins\<rparr>) c = Inr tx'"
    unfolding sign_inputs_step[OF assms(1) lt]
    by (auto split: sum.splits prod.splits)
  from modify_at_Inr[OF m] have ilt: "inId < len (Inputs tx)"
    and ins: "ins = Some ((elems (Inputs tx))[inId := (elems (Inputs tx) ! inId)\<lparr>Signature := Some (Bytes r @ Bytes s)\<rparr>])"
    by simp_all
  have IH: "(\<forall>i\<in>set rest. \<exists>out r s.
            referenced_output prevTXs (elems (Inputs c) ! i) = Inr out
          \<and> sg i K (bytes_of_string (Sprintf_x_newline
               (c\<lparr>Inputs := Some ((elems (Inputs c))[i := (elems (Inputs c) ! i)\<lparr>PubKey := PubKeyHash out\<rparr>])\<rparr>)))
              = Inr (r, s)
          \<and> Signature (elems (Inputs tx') ! i) = Some (Bytes r @ Bytes s))
       \<and> (\<forall>j. j \<notin> set rest \<longrightarrow> elems (Inputs tx') ! j = elems (Inputs (tx\<lparr>Inputs := ins\<rparr>)) ! j)
       \<and> len (Inputs tx') = len (Inputs (tx\<lparr>Inputs := ins\<rparr>))"
    using Cons.IH[OF _ _ rest] Cons.prems(1,2) by simp
  have notin: "inId \<notin> set rest" using Cons.prems(2) by simp
  have here: "Signature (elems (Inputs tx') ! inId) = Some (Bytes r @ Bytes s)"
    using IH notin ilt by (simp add: ins elems_def len_def)
  have other: "elems (Inputs tx') ! j = elems (Inputs tx) ! j" if "j \<notin> set (inId # rest)" for j
    using IH that by (simp add: ins elems_def)
  have l: "len (Inputs tx') = len (Inputs tx)"
    using IH by (simp add: ins len_def elems_def)
  show ?case using out sg here other l IH by auto
qed


lemma verify_inputs_step:
  assumes "trimmed c" "inId < len (Inputs c)"
  shows "verify_inputs V prevTXs (input # rest) inId c =
     (case referenced_output prevTXs input of Inl e \<Rightarrow> Inl e | Inr out \<Rightarrow>
        if \<not> V (halves (PubKey input))
             (bytes_of_string (Sprintf_x_newline
                (c\<lparr>Inputs := Some ((elems (Inputs c))[inId := (elems (Inputs c) ! inId)\<lparr>PubKey := PubKeyHash out\<rparr>])\<rparr>)))
             (fst (halves (Signature input))) (snd (halves (Signature input)))
        then Inr False else verify_inputs V prevTXs rest (inId + 1) c)"
  using assms
  by (simp add: trimmed_restore referenced_output_def halves_def Let_def split: sum.splits)

lemma verify_inputs_result:
  assumes "trimmed c" "inId + length ins \<le> len (Inputs c)"
    and "verify_inputs V prevTXs ins inId c = Inr b"
  shows "b = (\<forall>k<length ins. \<exists>out.
            referenced_output prevTXs (ins ! k) = Inr out
          \<and> V (halves (PubKey (ins ! k)))
               (bytes_of_string (Sprintf_x_newline
                 (c\<lparr>Inputs := Some ((elems (Inputs c))[inId + k := (elems (Inputs c) ! (inId + k))\<lparr>PubKey := PubKeyHash out\<rparr>])\<rparr>)))
               (fst (halves (Signature (ins ! k)))) (snd (halves (Signature (ins ! k)))))"
  using assms(2-)
proof (induction ins arbitrary: inId)
  case Nil
  then show ?case by simp
next
  case (Cons input rest)
  have lt: "inId < len (Inputs c)" using Cons.prems(1) by simp
  from Cons.prems(2) obtain out where out: "referenced_output prevTXs input = Inr out"
    unfolding verify_inputs_step[OF assms(1) lt] by (auto split: sum.splits)
  let ?ok = "V (halves (PubKey input))
             (bytes_of_string (Sprintf_x_newline
                (c\<lparr>Inputs := Some ((elems (Inputs c))[inId := (elems (Inputs c) ! inId)\<lparr>PubKey := PubKeyHash out\<rparr>])\<rparr>)))
             (fst (halves (Signature input))) (snd (halves (Signature input)))"
  show ?case
  proof (cases ?ok)
    case False
    with Cons.prems(2) out have "b = False"
      unfolding verify_inputs_step[OF assms(1) lt] by simp
    moreover have "\<not> (\<forall>k<length (input # rest). \<exists>out.
            referenced_output prevTXs ((input # rest) ! k) = Inr out
          \<and> V (halves (PubKey ((input # rest) ! k)))
               (bytes_of_string (Sprintf_x_newline
                 (c\<lparr>Inputs := Some ((elems (Inputs c))[inId + k := (elems (Inputs c) ! (inId + k))\<lparr>PubKey := PubKeyHash out\<rparr>])\<rparr>)))
               (fst (halves (Signature ((input # rest) ! k)))) (snd (halves (Signature ((input # rest) ! k)))))"
      using False out by (auto dest: spec[where x = 0])
    ultimately show ?thesis by simp
  next
    case True
    with Cons.prems(2) out have r: "verify_inputs V prevTXs rest (inId + 1) c = Inr b"
      unfolding verify_inputs_step[OF assms(1) lt] by simp
    have "b = (\<forall>k<length rest. \<exists>out.
            referenced_output prevTXs (rest ! k) = Inr out
          \<and> V (halves (PubKey (rest ! k)))
               (bytes_of_string (Sprintf_x_newline
                 (c\<lparr>Inputs := Some ((elems (Inputs c))[inId + 1 + k := (elems (Inputs c) ! (inId + 1 + k))\<lparr>PubKey := PubKeyHash out\<rparr>])\<rparr>)))
               (fst (halves (Signature (rest ! k)))) (snd (halves (Signature (rest ! k)))))"
      using Cons.IH[OF _ r] Cons.prems(1) by simp
    then show ?thesis using True out
      by (simp add: All_less_Suc2)
  qed
qed


lemma copy_for_input_eq:
  "(TrimmedCopy tx)\<lparr>Inputs := Some ((elems (Inputs (TrimmedCopy tx)))
      [i := (elems (Inputs (TrimmedCopy tx)) ! i)\<lparr>PubKey := PubKeyHash out\<rparr>])\<rparr> = copy_for_input tx i out"
  by (simp add: copy_for_input_def)


lemma sign_inputs_frame:
  "sign_inputs sg K prevTXs ids tx txCopy = Inr tx' \<Longrightarrow>
     ID tx' = ID tx \<and> Outputs tx' = Outputs tx
     \<and> map frame_key (elems (Inputs tx')) = map frame_key (elems (Inputs tx))
     \<and> (Inputs tx' = None \<longleftrightarrow> Inputs tx = None)"
proof (induction ids arbitrary: tx txCopy)
  case Nil
  then show ?case by simp
next
  case (Cons inId rest)
  from Cons.prems obtain ins tx1 txCopy1 where
    m: "modify_at (Inputs tx) inId (\<lambda>i. i\<lparr>Signature := ins\<rparr>) = Inr tx1"
    and r: "sign_inputs sg K prevTXs rest (tx\<lparr>Inputs := tx1\<rparr>) txCopy1 = Inr tx'"
    by (auto simp: Let_def split: sum.splits prod.splits)
  from m have lt: "inId < len (Inputs tx)"
    and tx1: "tx1 = Some ((elems (Inputs tx))[inId := (elems (Inputs tx) ! inId)\<lparr>Signature := ins\<rparr>])"
    by (auto dest: modify_at_Inr)
  have "map frame_key (elems tx1) = map frame_key (elems (Inputs tx))"
    using lt unfolding tx1 by (simp add: elems_def map_update frame_key_def len_def list_update_same_conv)
  moreover have "Inputs tx \<noteq> None" using lt by (cases "Inputs tx") (auto simp: len_def elems_def)
  ultimately show ?case using Cons.IH[OF r] tx1 by auto
qed


text \<open>Evaluating the functions of a transaction on a written-out transaction.\<close>

lemmas run_simps = Sign_def Verify_def IsCoinbase_def missing_prev_def lookup_tx_def TrimmedCopy_def
  append1_def elems_def len_def index_nat_def index_int_def modify_at_def Let_def

lemma EncodeToString_0304: "EncodeToString [3, 4] = ''0304''"
  by (simp add: EncodeToString_def hexdigit_def)

lemma Bytes_small:
  "Bytes (Suc 0) = [1]" "Bytes 2 = [2]" "Bytes 257 = [1, 1]" "Bytes 258 = [1, 2]" "Bytes 515 = [2, 3]"
  by (simp_all add: Bytes.simps)

text \<open>The text of a transaction begins with a dash, so its hexadecimal form begins with
  the digit 2; a gob stream under the fresh ids begins with the byte count \<open>0x39\<close> of the
  first type description, so its hexadecimal form begins with the digit 3.\<close>

lemma Join_newline_Cons_Cons: "Join_newline ((c # l) # ls) = c # Join_newline (l # ls)"
  by (cases ls) simp_all

lemma Sprintf_x_newline_head: "\<exists>rest. bytes_of_string (Sprintf_x_newline tx) = 0x32 # rest"
  by (simp add: Sprintf_x_newline_def String_def Join_newline_Cons_Cons bytes_of_string_def
        EncodeToString_def hexdigit_def)

lemma type_messages_fresh_head: "\<exists>rest. type_messages fresh_ids = 0x39 # rest"
proof -
  have "hd (type_messages fresh_ids) = 0x39 \<and> type_messages fresh_ids \<noteq> []"
    by code_simp
  then show ?thesis by (cases "type_messages fresh_ids") auto
qed

lemma hex_Serialize_head:
  "\<exists>rest. bytes_of_string (EncodeToString (Serialize fresh_ids tx) @ [CHR 0x0A]) = 0x33 # rest"
proof -
  obtain rest where "type_messages fresh_ids = 0x39 # rest"
    using type_messages_fresh_head by blast
  then show ?thesis
    by (simp add: Serialize_def EncodeToString_def hexdigit_def bytes_of_string_def)
qed

lemma preimage_not_gob:
  "bytes_of_string (Sprintf_x_newline c)
     \<noteq> bytes_of_string (EncodeToString (Serialize fresh_ids c') @ [CHR 0x0A])"
  using Sprintf_x_newline_head[of c] hex_Serialize_head[of c'] by auto

section \<open>Properties of the Merkle tree builder\<close>

lemma pair_nodes_length:
  "pair_nodes H nodes = Inr level \<Longrightarrow> length nodes = 2 * length level"
  by (induction H nodes arbitrary: level rule: pair_nodes.induct)
     (auto simp: NewMerkleNode_def split: sum.splits)

lemma pair_nodes_error: "pair_nodes H nodes = Inl e \<Longrightarrow> e = IndexOutOfRange"
  by (induction H nodes rule: pair_nodes.induct)
     (auto simp: NewMerkleNode_def split: sum.splits)

lemma build_levels_length:
  "build_levels H n nodes = Inr level \<Longrightarrow> length nodes = 2 ^ n * length level"
proof (induction n arbitrary: nodes)
  case 0
  then show ?case by simp
next
  case (Suc n)
  then show ?case by (auto split: sum.splits dest!: pair_nodes_length)
qed

lemma build_levels_error: "build_levels H n nodes = Inl e \<Longrightarrow> e = IndexOutOfRange"
  by (induction n arbitrary: nodes) (auto split: sum.splits dest: pair_nodes_error)

lemma leaf_nodes_Inr: "leaf_nodes H data = Inr (map (\<lambda>dat. MerkleNode None None (word_bytes (H dat))) data)"
  by (induction data) (simp_all add: NewMerkleNode_def)

lemma two_m_less: "3 \<le> m \<Longrightarrow> 2 * m < (2::nat) ^ m"
proof (induction m rule: dec_induct)
  case base
  then show ?case by simp
next
  case (step n)
  then show ?case by simp
qed

lemma NewMerkleTree_error: "NewMerkleTree H data = Inl e \<Longrightarrow> e = IndexOutOfRange"
  by (auto simp: NewMerkleTree_def Let_def leaf_nodes_Inr split: sum.splits list.splits if_splits
        dest: build_levels_error)

lemma NewMerkleTree_above_four: 
  assumes "4 < length data"
  shows "NewMerkleTree H data = Inl IndexOutOfRange"
proof (cases "NewMerkleTree H data")
  case (Inl e)
  then show ?thesis using NewMerkleTree_error by blast
next
  case (Inr t)
  define d where "d = (if length data mod 2 \<noteq> 0 then data @ [data ! (length data - 1)] else data)"
  have ev: "length d = 2 * (length d div 2)" using d_def by (auto split: if_splits) presburger+
  have big: "3 \<le> length d div 2" using assms d_def by (auto split: if_splits) 
  have eq: "NewMerkleTree H data =
      (case build_levels H (length d div 2) (map (\<lambda>dat. MerkleNode None None (word_bytes (H dat))) d) of
         Inl e \<Rightarrow> Inl e
       | Inr nodes \<Rightarrow> (case nodes of [] \<Rightarrow> Inl IndexOutOfRange | root # _ \<Rightarrow> Inr \<lparr>RootNode = root\<rparr>))"
    unfolding NewMerkleTree_def d_def Let_def leaf_nodes_Inr by simp
  from Inr obtain nodes where b: "build_levels H (length d div 2) (map (\<lambda>dat. MerkleNode None None (word_bytes (H dat))) d) = Inr nodes" and ne: "nodes \<noteq> []"
    unfolding eq by (auto split: sum.splits list.splits)
  from build_levels_length[OF b] have "length d = 2 ^ (length d div 2) * length nodes" by simp
  moreover have "1 \<le> length nodes" using ne by (cases nodes) auto
  ultimately have "2 ^ (length d div 2) \<le> length d"
    by (metis mult.right_neutral mult_le_mono2)
  with two_m_less[OF big] ev have False by linarith
  then show ?thesis ..
qed

lemma NewMerkleTree_small:
  "NewMerkleTree H [a] = Inr \<lparr>RootNode = MerkleNode
       (Some (MerkleNode None None (word_bytes (H a)))) (Some (MerkleNode None None (word_bytes (H a))))
       (merkle_root H [a])\<rparr>"
  "NewMerkleTree H [a, b] = Inr \<lparr>RootNode = MerkleNode
       (Some (MerkleNode None None (word_bytes (H a)))) (Some (MerkleNode None None (word_bytes (H b))))
       (merkle_root H [a, b])\<rparr>"
  "\<exists>l r. NewMerkleTree H [a, b, c] = Inr \<lparr>RootNode = MerkleNode l r (merkle_root H [a, b, c])\<rparr>"
  "\<exists>l r. NewMerkleTree H [a, b, c, d] = Inr \<lparr>RootNode = MerkleNode l r (merkle_root H [a, b, c, d])\<rparr>"
  by (simp_all add: NewMerkleTree_def NewMerkleNode_def merkle_root_def root_of_level.simps
        eval_nat_numeral mod_Suc div_Suc)

lemma length_cases_1_4:
  assumes "1 \<le> length xs" "length xs \<le> 4"
  obtains a where "xs = [a]" | a b where "xs = [a, b]" | a b c where "xs = [a, b, c]"
    | a b c d where "xs = [a, b, c, d]"
proof -
  from assms have "length xs = 1 \<or> length xs = 2 \<or> length xs = 3 \<or> length xs = 4" by arith
  then show thesis
    using that by (auto simp: length_Suc_conv numeral_2_eq_2 numeral_3_eq_3 eval_nat_numeral)
qed

text \<open>
  Claim C9. A transaction whose inputs are exactly one input with an empty previous
  transaction id and output index -1 passes \<open>Verify\<close> for every map of previous
  transactions and every ECDSA verifier, whatever its signature bytes, public key payload,
  outputs and id are.
\<close>

theorem Verify_coinbase_shape:
  assumes "Inputs tx = Some [input]" and "len (TxInput.ID input) = 0" and "Out input = - 1"
  shows "Verify ecdsa_Verify prevTXs tx = Inr True"
  using assms by (simp add: Verify_def IsCoinbase_def len_def elems_def)

theorem Verify_coinbase_shape_witness:
  "Verify (\<lambda>key hash r s. False) Map.empty
     \<lparr>ID = Some [1, 2], Inputs = Some [\<lparr>TxInput.ID = None, Out = - 1,
          Signature = Some [9], PubKey = Some [7, 7]\<rparr>], Outputs = None\<rparr> = Inr True"
  using Verify_coinbase_shape
    [of "\<lparr>ID = Some [1, 2], Inputs = Some [\<lparr>TxInput.ID = None, Out = - 1,
          Signature = Some [9], PubKey = Some [7, 7]\<rparr>], Outputs = None\<rparr>"
        "\<lparr>TxInput.ID = None, Out = - 1, Signature = Some [9], PubKey = Some [7, 7]\<rparr>"
        "\<lambda>key hash r s. False" Map.empty]
  by (simp add: len_def elems_def)

text \<open>
  Claim C10. When \<open>Sign\<close> returns, the transaction it leaves has the id and the outputs
  it had before and as many inputs, and every input has the previous transaction id, the
  output index and the public key it had before: only signatures change. This holds for
  every transaction, so also for those that are not coinbases and whose previous
  transactions are all present.
\<close>

theorem Sign_changes_signatures_only:
  assumes "Sign ecdsa_Sign privKey prevTXs tx = Inr tx'"
  shows "ID tx' = ID tx \<and> Outputs tx' = Outputs tx \<and> len (Inputs tx') = len (Inputs tx)
     \<and> (\<forall>i < len (Inputs tx).
           TxInput.ID (elems (Inputs tx') ! i) = TxInput.ID (elems (Inputs tx) ! i)
         \<and> Out (elems (Inputs tx') ! i) = Out (elems (Inputs tx) ! i)
         \<and> PubKey (elems (Inputs tx') ! i) = PubKey (elems (Inputs tx) ! i))"
proof (cases "IsCoinbase tx")
  case True
  with assms show ?thesis by (simp add: Sign_def)
next
  case False
  with assms have "sign_inputs ecdsa_Sign privKey prevTXs
      [0..<len (Inputs (TrimmedCopy tx))] tx (TrimmedCopy tx) = Inr tx'"
    by (simp add: Sign_def Let_def split: if_splits)
  from sign_inputs_frame[OF this]
  have h: "ID tx' = ID tx" "Outputs tx' = Outputs tx"
    and m: "map frame_key (elems (Inputs tx')) = map frame_key (elems (Inputs tx))"
    by simp_all
  from m have l: "length (elems (Inputs tx')) = length (elems (Inputs tx))"
    by (rule map_eq_imp_length_eq)
  have "frame_key (elems (Inputs tx') ! i) = frame_key (elems (Inputs tx) ! i)"
    if "i < len (Inputs tx)" for i
    using that m l by (metis len_def nth_map)
  then show ?thesis using h l by (simp add: len_def frame_key_def)
qed

theorem Sign_changes_signatures_only_witness:
  "\<not> IsCoinbase
      \<lparr>ID = Some [1, 2],
       Inputs = Some [\<lparr>TxInput.ID = Some [3, 4], Out = 0, Signature = None, PubKey = Some [5]\<rparr>,
                      \<lparr>TxInput.ID = Some [3, 4], Out = 1, Signature = None, PubKey = Some [5]\<rparr>],
       Outputs = Some [\<lparr>Value = 27, PubKeyHash = Some [6]\<rparr>]\<rparr>
   \<and> Sign (\<lambda>n k hash. Inr (n + 257, 515)) ()
       [''0304'' \<mapsto> \<lparr>ID = Some [3, 4], Inputs = None,
          Outputs = Some [\<lparr>Value = 20, PubKeyHash = Some [8]\<rparr>, \<lparr>Value = 7, PubKeyHash = Some [9]\<rparr>]\<rparr>]
       \<lparr>ID = Some [1, 2],
        Inputs = Some [\<lparr>TxInput.ID = Some [3, 4], Out = 0, Signature = None, PubKey = Some [5]\<rparr>,
                       \<lparr>TxInput.ID = Some [3, 4], Out = 1, Signature = None, PubKey = Some [5]\<rparr>],
        Outputs = Some [\<lparr>Value = 27, PubKeyHash = Some [6]\<rparr>]\<rparr>
     = Inr \<lparr>ID = Some [1, 2],
        Inputs = Some [\<lparr>TxInput.ID = Some [3, 4], Out = 0, Signature = Some [1, 1, 2, 3], PubKey = Some [5]\<rparr>,
                       \<lparr>TxInput.ID = Some [3, 4], Out = 1, Signature = Some [1, 2, 2, 3], PubKey = Some [5]\<rparr>],
        Outputs = Some [\<lparr>Value = 27, PubKeyHash = Some [6]\<rparr>]\<rparr>
   \<and> len (Inputs \<lparr>ID = Some [1, 2],
        Inputs = Some [\<lparr>TxInput.ID = Some [3, 4], Out = 0, Signature = Some [1, 1, 2, 3], PubKey = Some [5]\<rparr>,
                       \<lparr>TxInput.ID = Some [3, 4], Out = 1, Signature = Some [1, 2, 2, 3], PubKey = Some [5]\<rparr>],
        Outputs = Some [\<lparr>Value = 27, PubKeyHash = Some [6]\<rparr>]\<rparr>) = 2"
proof -
  have run: "Sign (\<lambda>n k hash. Inr (n + 257, 515)) ()
       [''0304'' \<mapsto> \<lparr>ID = Some [3, 4], Inputs = None,
          Outputs = Some [\<lparr>Value = 20, PubKeyHash = Some [8]\<rparr>, \<lparr>Value = 7, PubKeyHash = Some [9]\<rparr>]\<rparr>]
       \<lparr>ID = Some [1, 2],
        Inputs = Some [\<lparr>TxInput.ID = Some [3, 4], Out = 0, Signature = None, PubKey = Some [5]\<rparr>,
                       \<lparr>TxInput.ID = Some [3, 4], Out = 1, Signature = None, PubKey = Some [5]\<rparr>],
        Outputs = Some [\<lparr>Value = 27, PubKeyHash = Some [6]\<rparr>]\<rparr>
     = Inr \<lparr>ID = Some [1, 2],
        Inputs = Some [\<lparr>TxInput.ID = Some [3, 4], Out = 0, Signature = Some [1, 1, 2, 3], PubKey = Some [5]\<rparr>,
                       \<lparr>TxInput.ID = Some [3, 4], Out = 1, Signature = Some [1, 2, 2, 3], PubKey = Some [5]\<rparr>],
        Outputs = Some [\<lparr>Value = 27, PubKeyHash = Some [6]\<rparr>]\<rparr>"
    by (simp add: run_simps EncodeToString_0304 Bytes_small)
  show ?thesis
    using run Sign_changes_signatures_only[OF run]
    by (simp add: IsCoinbase_def len_def elems_def)
qed

text \<open>
  Claim C1, as the program has it. For a transaction that is not a coinbase, the bytes
  handed to ECDSA for input \<open>i\<close>, by \<open>Sign\<close> and by \<open>Verify\<close> alike, are the lowercase
  hexadecimal form of the text that \<open>String\<close> prints for the trimmed copy in which input
  \<open>i\<close> carries the referenced output's public key hash, followed by one newline: when
  \<open>Sign\<close> returns, the signature stored in input \<open>i\<close> is what the signer returned for call
  \<open>i\<close> on exactly these bytes, and when \<open>Verify\<close> returns, its answer is whether the
  verifier accepts exactly these bytes for every input.
\<close>

theorem signed_bytes_are_hex_of_String:
  assumes "\<not> IsCoinbase tx"
  shows "(Sign ecdsa_Sign privKey prevTXs tx = Inr tx' \<longrightarrow>
            (\<forall>i<len (Inputs tx). \<exists>out r s.
                referenced_output prevTXs (elems (Inputs tx) ! i) = Inr out
              \<and> ecdsa_Sign i privKey (signing_preimage tx i out) = Inr (r, s)
              \<and> Signature (elems (Inputs tx') ! i) = Some (Bytes r @ Bytes s)))
       \<and> (Verify ecdsa_Verify prevTXs tx = Inr b \<longrightarrow>
            b = (\<forall>i<len (Inputs tx). \<exists>out.
                referenced_output prevTXs (elems (Inputs tx) ! i) = Inr out
              \<and> ecdsa_Verify (halves (PubKey (elems (Inputs tx) ! i))) (signing_preimage tx i out)
                  (fst (halves (Signature (elems (Inputs tx) ! i))))
                  (snd (halves (Signature (elems (Inputs tx) ! i))))))"
proof (intro conjI impI)
  assume "Sign ecdsa_Sign privKey prevTXs tx = Inr tx'"
  with assms have run: "sign_inputs ecdsa_Sign privKey prevTXs
      [0..<len (Inputs (TrimmedCopy tx))] tx (TrimmedCopy tx) = Inr tx'"
    by (simp add: Sign_def Let_def split: if_splits)
  have "\<forall>i\<in>set [0..<len (Inputs (TrimmedCopy tx))]. i < len (Inputs (TrimmedCopy tx))"
    by simp
  from sign_inputs_signatures[OF trimmed_TrimmedCopy this _ run]
  show "\<forall>i<len (Inputs tx). \<exists>out r s.
                referenced_output prevTXs (elems (Inputs tx) ! i) = Inr out
              \<and> ecdsa_Sign i privKey (signing_preimage tx i out) = Inr (r, s)
              \<and> Signature (elems (Inputs tx') ! i) = Some (Bytes r @ Bytes s)"
    by (simp add: len_TrimmedCopy_Inputs copy_for_input_eq signing_preimage_def
          Sprintf_x_newline_def)
       (simp add: elems_TrimmedCopy_Inputs len_def)
next
  assume "Verify ecdsa_Verify prevTXs tx = Inr b"
  with assms have run: "verify_inputs ecdsa_Verify prevTXs (elems (Inputs tx)) 0 (TrimmedCopy tx) = Inr b"
    by (simp add: Verify_def split: if_splits)
  have "0 + length (elems (Inputs tx)) \<le> len (Inputs (TrimmedCopy tx))"
    by (simp add: len_def elems_TrimmedCopy_Inputs)
  from verify_inputs_result[OF trimmed_TrimmedCopy this run]
  show "b = (\<forall>i<len (Inputs tx). \<exists>out.
                referenced_output prevTXs (elems (Inputs tx) ! i) = Inr out
              \<and> ecdsa_Verify (halves (PubKey (elems (Inputs tx) ! i))) (signing_preimage tx i out)
                  (fst (halves (Signature (elems (Inputs tx) ! i))))
                  (snd (halves (Signature (elems (Inputs tx) ! i)))))"
    by (simp add: copy_for_input_eq signing_preimage_def Sprintf_x_newline_def len_def)
qed


theorem signed_bytes_are_hex_of_String_witness:
  "\<not> IsCoinbase \<lparr>ID = Some [1, 2],
        Inputs = Some [\<lparr>TxInput.ID = Some [3, 4], Out = 0, Signature = None, PubKey = Some [5]\<rparr>],
        Outputs = Some [\<lparr>Value = 20, PubKeyHash = Some [6]\<rparr>]\<rparr>
   \<and> Sign (\<lambda>n k data. if data = signing_preimage
        \<lparr>ID = Some [1, 2],
        Inputs = Some [\<lparr>TxInput.ID = Some [3, 4], Out = 0, Signature = None, PubKey = Some [5]\<rparr>],
        Outputs = Some [\<lparr>Value = 20, PubKeyHash = Some [6]\<rparr>]\<rparr> 0 \<lparr>Value = 20, PubKeyHash = Some [8]\<rparr>
        then Inr (1, 2) else Inl EcdsaSignError) ()
       [''0304'' \<mapsto> \<lparr>ID = Some [3, 4], Inputs = None,
          Outputs = Some [\<lparr>Value = 20, PubKeyHash = Some [8]\<rparr>]\<rparr>]
       \<lparr>ID = Some [1, 2],
        Inputs = Some [\<lparr>TxInput.ID = Some [3, 4], Out = 0, Signature = None, PubKey = Some [5]\<rparr>],
        Outputs = Some [\<lparr>Value = 20, PubKeyHash = Some [6]\<rparr>]\<rparr>
     = Inr \<lparr>ID = Some [1, 2],
        Inputs = Some [\<lparr>TxInput.ID = Some [3, 4], Out = 0, Signature = Some [1, 2], PubKey = Some [5]\<rparr>],
        Outputs = Some [\<lparr>Value = 20, PubKeyHash = Some [6]\<rparr>]\<rparr>
   \<and> (\<exists>out r s.
          referenced_output [''0304'' \<mapsto> \<lparr>ID = Some [3, 4], Inputs = None,
          Outputs = Some [\<lparr>Value = 20, PubKeyHash = Some [8]\<rparr>]\<rparr>] (elems (Inputs \<lparr>ID = Some [1, 2],
        Inputs = Some [\<lparr>TxInput.ID = Some [3, 4], Out = 0, Signature = None, PubKey = Some [5]\<rparr>],
        Outputs = Some [\<lparr>Value = 20, PubKeyHash = Some [6]\<rparr>]\<rparr>) ! 0) = Inr out
        \<and> (\<lambda>n k data. if data = signing_preimage
        \<lparr>ID = Some [1, 2],
        Inputs = Some [\<lparr>TxInput.ID = Some [3, 4], Out = 0, Signature = None, PubKey = Some [5]\<rparr>],
        Outputs = Some [\<lparr>Value = 20, PubKeyHash = Some [6]\<rparr>]\<rparr> 0 \<lparr>Value = 20, PubKeyHash = Some [8]\<rparr>
        then Inr (1, 2) else Inl EcdsaSignError) 0 () (signing_preimage \<lparr>ID = Some [1, 2],
        Inputs = Some [\<lparr>TxInput.ID = Some [3, 4], Out = 0, Signature = None, PubKey = Some [5]\<rparr>],
        Outputs = Some [\<lparr>Value = 20, PubKeyHash = Some [6]\<rparr>]\<rparr> 0 out) = Inr (r, s)
        \<and> Signature (elems (Inputs \<lparr>ID = Some [1, 2],
        Inputs = Some [\<lparr>TxInput.ID = Some [3, 4], Out = 0, Signature = Some [1, 2], PubKey = Some [5]\<rparr>],
        Outputs = Some [\<lparr>Value = 20, PubKeyHash = Some [6]\<rparr>]\<rparr>) ! 0) = Some (Bytes r @ Bytes s))"
proof -
  have nc: "\<not> IsCoinbase \<lparr>ID = Some [1, 2],
        Inputs = Some [\<lparr>TxInput.ID = Some [3, 4], Out = 0, Signature = None, PubKey = Some [5]\<rparr>],
        Outputs = Some [\<lparr>Value = 20, PubKeyHash = Some [6]\<rparr>]\<rparr>"
    by (simp add: IsCoinbase_def len_def elems_def)
  have run: "Sign (\<lambda>n k data. if data = signing_preimage
        \<lparr>ID = Some [1, 2],
        Inputs = Some [\<lparr>TxInput.ID = Some [3, 4], Out = 0, Signature = None, PubKey = Some [5]\<rparr>],
        Outputs = Some [\<lparr>Value = 20, PubKeyHash = Some [6]\<rparr>]\<rparr> 0 \<lparr>Value = 20, PubKeyHash = Some [8]\<rparr>
        then Inr (1, 2) else Inl EcdsaSignError) ()
       [''0304'' \<mapsto> \<lparr>ID = Some [3, 4], Inputs = None,
          Outputs = Some [\<lparr>Value = 20, PubKeyHash = Some [8]\<rparr>]\<rparr>]
       \<lparr>ID = Some [1, 2],
        Inputs = Some [\<lparr>TxInput.ID = Some [3, 4], Out = 0, Signature = None, PubKey = Some [5]\<rparr>],
        Outputs = Some [\<lparr>Value = 20, PubKeyHash = Some [6]\<rparr>]\<rparr>
     = Inr \<lparr>ID = Some [1, 2],
        Inputs = Some [\<lparr>TxInput.ID = Some [3, 4], Out = 0, Signature = Some [1, 2], PubKey = Some [5]\<rparr>],
        Outputs = Some [\<lparr>Value = 20, PubKeyHash = Some [6]\<rparr>]\<rparr>"
    by (simp add: run_simps EncodeToString_0304 Bytes_small signing_preimage_def copy_for_input_def
          Sprintf_x_newline_def)
  have "0 < len (Inputs \<lparr>ID = Some [1, 2],
        Inputs = Some [\<lparr>TxInput.ID = Some [3, 4], Out = 0, Signature = None, PubKey = Some [5]\<rparr>],
        Outputs = Some [\<lparr>Value = 20, PubKeyHash = Some [6]\<rparr>]\<rparr>)"
    by (simp add: len_def elems_def)
  with signed_bytes_are_hex_of_String[OF nc, THEN conjunct1, THEN mp, OF run]
  show ?thesis using nc run by blast
qed

text \<open>
  Claim C1 as stated fails: the bytes are not the hexadecimal form of the binary
  serialization of the copy. Below, the transaction has one input, which refers to output 0
  of the previous transaction \<open>0304\<close>; the signer signs nothing but the hexadecimal form of
  the gob stream of the trimmed copy followed by a newline, and the verifier accepts nothing
  else. \<open>Sign\<close> ends in the signer's error and \<open>Verify\<close> answers false, so neither hands
  over these bytes.
\<close>

theorem signed_bytes_are_hex_of_Serialize_counterexample:
  "Sign (\<lambda>n k data. if data = bytes_of_string (EncodeToString (Serialize fresh_ids
               \<lparr>ID = Some [1, 2],
                Inputs = Some [\<lparr>TxInput.ID = Some [3, 4], Out = 0, Signature = None, PubKey = Some [8]\<rparr>],
                Outputs = Some [\<lparr>Value = 20, PubKeyHash = Some [6]\<rparr>]\<rparr>) @ [CHR 0x0A])
          then Inr (1, 2) else Inl EcdsaSignError) ()
       [''0304'' \<mapsto> \<lparr>ID = Some [3, 4], Inputs = None,
          Outputs = Some [\<lparr>Value = 20, PubKeyHash = Some [8]\<rparr>]\<rparr>]
       \<lparr>ID = Some [1, 2],
        Inputs = Some [\<lparr>TxInput.ID = Some [3, 4], Out = 0, Signature = None, PubKey = Some [5]\<rparr>],
        Outputs = Some [\<lparr>Value = 20, PubKeyHash = Some [6]\<rparr>]\<rparr>
     = Inl EcdsaSignError
   \<and> Verify (\<lambda>key data r s. data = bytes_of_string (EncodeToString (Serialize fresh_ids
               \<lparr>ID = Some [1, 2],
                Inputs = Some [\<lparr>TxInput.ID = Some [3, 4], Out = 0, Signature = None, PubKey = Some [8]\<rparr>],
                Outputs = Some [\<lparr>Value = 20, PubKeyHash = Some [6]\<rparr>]\<rparr>) @ [CHR 0x0A]))
       [''0304'' \<mapsto> \<lparr>ID = Some [3, 4], Inputs = None,
          Outputs = Some [\<lparr>Value = 20, PubKeyHash = Some [8]\<rparr>]\<rparr>]
       \<lparr>ID = Some [1, 2],
        Inputs = Some [\<lparr>TxInput.ID = Some [3, 4], Out = 0, Signature = Some [1, 2], PubKey = Some [5]\<rparr>],
        Outputs = Some [\<lparr>Value = 20, PubKeyHash = Some [6]\<rparr>]\<rparr>
     = Inr False"
  by (simp add: run_simps EncodeToString_0304 preimage_not_gob)

text \<open>
  Claim C3, against the program. For one to four leaves \<open>NewMerkleTree\<close> returns a tree
  whose root holds the digest that the rule gives (leaves hash their input, inner nodes hash
  left before right, a trailing node without a neighbour is paired with itself, level by
  level until one node remains). For more than four leaves it never returns a root: the
  outer loop runs \<open>len(data)/2\<close> times and pads only the leaf level, so an inner level of
  odd length, or the single node left before the rounds are used up, makes \<^verbatim>\<open>nodes[j+1]\<close>
  panic with an index out of range.
\<close>

theorem NewMerkleTree_up_to_four_leaves_only:
  "(1 \<le> length data \<and> length data \<le> 4 \<longrightarrow>
      (\<exists>t. NewMerkleTree Sum256 data = Inr t \<and> Data (RootNode t) = merkle_root Sum256 data))
   \<and> (4 < length data \<longrightarrow> NewMerkleTree Sum256 data = Inl IndexOutOfRange)"
proof (intro conjI impI)
  assume "1 \<le> length data \<and> length data \<le> 4"
  then show "\<exists>t. NewMerkleTree Sum256 data = Inr t \<and> Data (RootNode t) = merkle_root Sum256 data"
    using NewMerkleTree_small[of Sum256]
    by (elim conjE length_cases_1_4[of data]) fastforce+
next
  assume "4 < length data"
  then show "NewMerkleTree Sum256 data = Inl IndexOutOfRange"
    by (rule NewMerkleTree_above_four)
qed

theorem NewMerkleTree_up_to_four_leaves_only_witness:
  "4 < length [[1], [2], [3], [4], [5 :: byte]]
   \<and> NewMerkleTree (\<lambda>data. 0) [[1], [2], [3], [4], [5]] = Inl IndexOutOfRange
   \<and> merkle_root (\<lambda>data. 0) [[1], [2], [3], [4], [5]] = word_bytes (0 :: 256 word)"
  using NewMerkleTree_up_to_four_leaves_only[of "[[1], [2], [3], [4], [5]]" "\<lambda>data. 0"]
  by (simp add: merkle_root_def root_of_level.simps)


end
